theory Spec2Isabelle
  imports Main
begin

section \<open>Python text primitives used by \<^verbatim>\<open>transports.py\<close>\<close>

text \<open>
  Python 2 byte strings (\<^verbatim>\<open>str\<close>) are modelled as \<^typ>\<open>string\<close>, one \<^typ>\<open>char\<close> per byte.
  The packet texts that the codec joins and splits are byte strings. The \<^verbatim>\<open>unicode\<close> objects
  of the polling deframer are lists of code points; they are introduced with the deframer.
\<close>

definition digit_char :: "nat \<Rightarrow> char" where
  "digit_char d = ''0123456789'' ! d"

text \<open>\<^verbatim>\<open>str(n)\<close> for a natural number: its decimal digits, most significant first.\<close>

function str_nat :: "nat \<Rightarrow> string" where
  "str_nat n = (if n < 10 then [digit_char n] else str_nat (n div 10) @ [digit_char (n mod 10)])"
  by pat_completeness auto
termination
  by (relation "measure id") auto

declare str_nat.simps [simp del]

text \<open>\<^verbatim>\<open>str(i)\<close> for a Python integer (unbounded, hence \<^typ>\<open>int\<close>).\<close>

definition str_int :: "int \<Rightarrow> string" where
  "str_int i = (if i < 0 then CHR ''-'' # str_nat (nat (- i)) else str_nat (nat i))"

text \<open>\<^verbatim>\<open>sep.join(parts)\<close>.\<close>

fun str_join :: "string \<Rightarrow> string list \<Rightarrow> string" where
  "str_join sep [] = []"
| "str_join sep [x] = x"
| "str_join sep (x # y # ys) = x @ sep @ str_join sep (y # ys)"

text \<open>
  \<^verbatim>\<open>s.split(sep, maxsplit)\<close> and \<^verbatim>\<open>s.split(sep)\<close>: the text is scanned from the left, each
  occurrence of the separator closes the current field, and after \<open>maxsplit\<close> cuts the
  rest of the text is the last field. The limit \<open>None\<close> is Python's "no limit". An empty
  separator raises \<^verbatim>\<open>ValueError\<close> in Python; both call sites pass a non-empty constant, and
  the scan below never cuts on an empty separator.
\<close>

fun split_scan :: "string \<Rightarrow> nat option \<Rightarrow> string \<Rightarrow> string \<Rightarrow> string list" where
  "split_scan sep lim acc [] = [rev acc]"
| "split_scan sep lim acc (c # cs) =
     (if lim \<noteq> Some 0 \<and> sep \<noteq> [] \<and> take (length sep) (c # cs) = sep
      then rev acc # split_scan sep (map_option (\<lambda>n. n - 1) lim) [] (drop (length sep) (c # cs))
      else split_scan sep lim (c # acc) cs)"

definition str_split_max :: "string \<Rightarrow> string \<Rightarrow> nat \<Rightarrow> string list" where
  "str_split_max s sep maxsplit = split_scan sep (Some maxsplit) [] s"

definition str_split :: "string \<Rightarrow> string \<Rightarrow> string list" where
  "str_split s sep = split_scan sep None [] s"

text \<open>\<^verbatim>\<open>s.rstrip('+')\<close>: every trailing occurrence of the character is removed.\<close>

definition rstrip :: "char \<Rightarrow> string \<Rightarrow> string" where
  "rstrip c s = rev (dropWhile (\<lambda>x. x = c) (rev s))"

section \<open>The abstract transport: acknowledgment registry and packet codec\<close>

datatype error =
    KeyError string
  | SocketIOError string
  | SocketIOConnectionError string
  | UnicodeDecodeError

text \<open>
  The two attributes set by \<^verbatim>\<open>_AbstractTransport.__init__\<close>. The callbacks are values of an
  arbitrary type \<open>'cb\<close>; the dictionary is a map from packet-id strings.
\<close>

record 'cb transport =
  packet_id :: int
  callback_by_packet_id :: "string \<rightharpoonup> 'cb"

definition init :: "'cb transport" where
  "init = \<lparr>packet_id = 0, callback_by_packet_id = Map.empty\<rparr>"

definition set_ack_callback :: "'cb transport \<Rightarrow> 'cb \<Rightarrow> 'cb transport \<times> string" where
  "set_ack_callback self callback =
     (let n = packet_id self + 1
      in (self\<lparr>packet_id := n,
               callback_by_packet_id := (callback_by_packet_id self)(str_int n \<mapsto> callback)\<rparr>,
          str_int n @ ''+''))"

definition get_ack_callback :: "'cb transport \<Rightarrow> string \<Rightarrow> error + ('cb \<times> 'cb transport)" where
  "get_ack_callback self pid =
     (case callback_by_packet_id self pid of
        None \<Rightarrow> Inl (KeyError pid)
      | Some callback \<Rightarrow>
          Inr (callback,
               self\<lparr>callback_by_packet_id := (callback_by_packet_id self)(pid := None)\<rparr>))"

definition has_ack_callback :: "'cb transport \<Rightarrow> bool" where
  "has_ack_callback self = (callback_by_packet_id self \<noteq> Map.empty)"

text \<open>
  \<^verbatim>\<open>send_packet\<close> hands one text to the concrete transport's \<^verbatim>\<open>send\<close>. The model returns the
  transport state after the optional \<^verbatim>\<open>set_ack_callback\<close> together with that text. An absent
  callback (\<^verbatim>\<open>None\<close>, the default) is \<open>None\<close>; the defaults \<^verbatim>\<open>path=''\<close> and \<^verbatim>\<open>data=''\<close> are passed
  explicitly by the callers below.
\<close>

definition send_packet ::
  "'cb transport \<Rightarrow> int \<Rightarrow> string \<Rightarrow> string \<Rightarrow> 'cb option \<Rightarrow> 'cb transport \<times> string" where
  "send_packet self code path data callback =
     (let (self', pid) = (case callback of
                            Some cb \<Rightarrow> set_ack_callback self cb
                          | None \<Rightarrow> (self, ''''));
          packet_parts = [str_int code, pid, path, data];
          packet_text = str_join '':'' packet_parts
      in (self', packet_text))"

definition connect :: "'cb transport \<Rightarrow> string \<Rightarrow> 'cb transport \<times> string" where
  "connect self path = send_packet self 1 path '''' None"

definition send_heartbeat :: "'cb transport \<Rightarrow> 'cb transport \<times> string" where
  "send_heartbeat self = send_packet self 2 '''' '''' None"

definition noop :: "'cb transport \<Rightarrow> 'cb transport \<times> string" where
  "noop self = send_packet self 8 '''' '''' None"

text \<open>
  \<^verbatim>\<open>recv_packet\<close>: the four variables are set to \<^verbatim>\<open>None\<close> once, before the loop over the
  items that \<^verbatim>\<open>recv()\<close> yields, and the \<^verbatim>\<open>yield\<close> is the last statement of the loop body,
  outside the \<^verbatim>\<open>if\<close>/\<^verbatim>\<open>elif\<close> chain. An item without a \<^verbatim>\<open>split\<close> attribute raises
  \<^verbatim>\<open>AttributeError\<close>, which is caught and followed by \<^verbatim>\<open>continue\<close>.
\<close>

datatype received = Text string | NonText

type_synonym packet = "string option \<times> string option \<times> string option \<times> string option"

fun recv_loop :: "packet \<Rightarrow> received list \<Rightarrow> packet list" where
  "recv_loop vars [] = []"
| "recv_loop vars (NonText # rest) = recv_loop vars rest"
| "recv_loop (code, pid, path, data) (Text packet_text # rest) =
     (let packet_parts = str_split_max packet_text '':'' 3;
          packet_count = length packet_parts;
          vars' =
            (if 4 = packet_count
             then (Some (packet_parts ! 0), Some (packet_parts ! 1),
                   Some (packet_parts ! 2), Some (packet_parts ! 3))
             else if 3 = packet_count
             then (Some (packet_parts ! 0), Some (packet_parts ! 1),
                   Some (packet_parts ! 2), data)
             else if 1 = packet_count
             then (Some (packet_parts ! 0), pid, path, data)
             else (code, pid, path, data))
      in vars' # recv_loop vars' rest)"

definition recv_packet :: "received list \<Rightarrow> packet list" where
  "recv_packet batch = recv_loop (None, None, None, None) batch"

text \<open>
  A sequence of calls on one transport instance, in program order. \<open>run\<close> threads the
  instance through the calls and collects the packet ids that the \<^verbatim>\<open>set_ack_callback\<close>
  calls return; a \<^verbatim>\<open>get_ack_callback\<close> that raises leaves the instance as it was.
\<close>

datatype 'cb call = is_set: Set_ack_callback 'cb | Get_ack_callback string

fun run :: "'cb transport \<Rightarrow> 'cb call list \<Rightarrow> 'cb transport \<times> string list" where
  "run self [] = (self, [])"
| "run self (Set_ack_callback cb # calls) =
     (let (self', pid) = set_ack_callback self cb;
          (self'', pids) = run self' calls
      in (self'', pid # pids))"
| "run self (Get_ack_callback k # calls) =
     (case get_ack_callback self k of
        Inl e \<Rightarrow> run self calls
      | Inr (cb, self') \<Rightarrow> run self' calls)"

text \<open>
  The keys of the registry of an instance that was built by \<^verbatim>\<open>__init__\<close> and used through
  the two registry methods are decimal numerals; in particular none contains a \<open>+\<close>.
\<close>

definition plus_free :: "'cb transport \<Rightarrow> bool" where
  "plus_free self = (\<forall>k. callback_by_packet_id self k \<noteq> None \<longrightarrow> CHR ''+'' \<notin> set k)"

section \<open>JSON serialisation and the \<^verbatim>\<open>message\<close> operation\<close>

text \<open>
  The values handed to \<^verbatim>\<open>json.dumps\<close>: \<^verbatim>\<open>None\<close>, booleans, integers, texts, lists and
  dictionaries with text keys (an association list in the dictionary's iteration order).
  Floats and objects that \<^verbatim>\<open>json.dumps\<close> rejects with \<^verbatim>\<open>TypeError\<close> are outside this type.
\<close>

datatype py_value =
    PyNone
  | PyBool bool
  | PyInt int
  | is_PyStr: PyStr string
  | PyList "py_value list"
  | PyDict "(string \<times> py_value) list"

definition hex_char :: "nat \<Rightarrow> char" where
  "hex_char d = ''0123456789abcdef'' ! d"

text \<open>
  \<^verbatim>\<open>json.encoder.ESCAPE_DCT\<close>, the replacement that \<^verbatim>\<open>encode_basestring\<close> applies to every
  match of \<^verbatim>\<open>[\x00-\x1f\\"\b\f\n\r\t]\<close>: the seven named escapes, \<^verbatim>\<open>\u00XX\<close> for the other
  control characters, and every other character, the non-ASCII ones included, as it is
  (\<^verbatim>\<open>ensure_ascii=False\<close>).
\<close>

definition escape_char :: "char \<Rightarrow> string" where
  "escape_char c =
     (if c = CHR 0x5C then [CHR 0x5C, CHR 0x5C]
      else if c = CHR 0x22 then [CHR 0x5C, CHR 0x22]
      else if c = CHR 0x08 then [CHR 0x5C, CHR ''b'']
      else if c = CHR 0x0C then [CHR 0x5C, CHR ''f'']
      else if c = CHR 0x0A then [CHR 0x5C, CHR ''n'']
      else if c = CHR 0x0D then [CHR 0x5C, CHR ''r'']
      else if c = CHR 0x09 then [CHR 0x5C, CHR ''t'']
      else if (of_char c :: nat) < 0x20
      then [CHR 0x5C, CHR ''u'', CHR ''0'', CHR ''0'',
            hex_char (of_char c div 16), hex_char (of_char c mod 16)]
      else [c])"

definition encode_basestring :: "string \<Rightarrow> string" where
  "encode_basestring s = [CHR 0x22] @ concat (map escape_char s) @ [CHR 0x22]"

text \<open>
  \<^verbatim>\<open>json.dumps(obj, ensure_ascii=False)\<close> with the default separators \<^verbatim>\<open>', '\<close> and \<^verbatim>\<open>': '\<close>.
\<close>

fun dumps :: "py_value \<Rightarrow> string" where
  "dumps PyNone = ''null''"
| "dumps (PyBool b) = (if b then ''true'' else ''false'')"
| "dumps (PyInt i) = str_int i"
| "dumps (PyStr s) = encode_basestring s"
| "dumps (PyList xs) = ''['' @ str_join '', '' (map dumps xs) @ '']''"
| "dumps (PyDict kvs) =
     ''{'' @ str_join '', '' (map (\<lambda>kv. encode_basestring (fst kv) @ '': '' @ dumps (snd kv)) kvs)
       @ ''}''"

text \<open>
  \<^verbatim>\<open>message\<close>: \<^verbatim>\<open>isinstance(data, basestring)\<close> holds exactly for a text.
\<close>

definition message ::
  "'cb transport \<Rightarrow> string \<Rightarrow> py_value \<Rightarrow> 'cb option \<Rightarrow> 'cb transport \<times> string" where
  "message self path data callback =
     (case data of
        PyStr text \<Rightarrow> send_packet self 3 path text callback
      | _ \<Rightarrow> send_packet self 4 path (dumps data) callback)"

section \<open>Transport negotiation\<close>

text \<open>
  The session is an external object with the two attributes \<^verbatim>\<open>id\<close> and
  \<^verbatim>\<open>server_supported_transports\<close>.
\<close>

record session =
  session_id :: string
  server_supported_transports :: "string list"

text \<open>
  An instance of one of the three concrete classes: the state of the abstract base class,
  then the attributes the constructor sets (\<^verbatim>\<open>_connection\<close>; \<^verbatim>\<open>_url\<close> and \<^verbatim>\<open>_connected\<close>;
  \<^verbatim>\<open>_url\<close>, \<^verbatim>\<open>_connected\<close> and \<^verbatim>\<open>_jsonp_id\<close>). The HTTP session object of the polling
  classes is built by the \<^verbatim>\<open>requests\<close> library from the keyword options and is left out.
\<close>

datatype ('cb, 'conn) transport_instance =
    WebsocketTransport "'cb transport" 'conn
  | XHR_PollingTransport "'cb transport" string bool
  | JSONP_PollingTransport "'cb transport" string bool int

text \<open>
  The constructors. \<^verbatim>\<open>websocket.create_connection\<close> is the environment: it is a parameter
  that maps the URL to a connection, or to the \<^verbatim>\<open>socket.timeout\<close> or \<^verbatim>\<open>socket.error\<close> that it
  raises; these are the two exceptions the constructor catches and re-raises as
  \<^verbatim>\<open>SocketIOConnectionError\<close>. The read timeout that the constructor then sets is kept by
  the connection object and is left out.
\<close>

definition WebsocketTransport_init ::
  "(string \<Rightarrow> string + 'conn) \<Rightarrow> session \<Rightarrow> bool \<Rightarrow> string
     \<Rightarrow> error + ('cb, 'conn) transport_instance" where
  "WebsocketTransport_init create_connection socketIO_session secure base_url =
     (let url = (if secure then ''wss'' else ''ws'') @ ''://'' @ base_url @ ''/websocket/''
                  @ session_id socketIO_session
      in case create_connection url of
           Inl e \<Rightarrow> Inl (SocketIOConnectionError e)
         | Inr connection \<Rightarrow> Inr (WebsocketTransport init connection))"

definition XHR_PollingTransport_init ::
  "session \<Rightarrow> bool \<Rightarrow> string \<Rightarrow> error + ('cb, 'conn) transport_instance" where
  "XHR_PollingTransport_init socketIO_session secure base_url =
     Inr (XHR_PollingTransport init
            ((if secure then ''https'' else ''http'') @ ''://'' @ base_url @ ''/xhr-polling/''
               @ session_id socketIO_session)
            True)"

definition JSONP_PollingTransport_init ::
  "session \<Rightarrow> bool \<Rightarrow> string \<Rightarrow> error + ('cb, 'conn) transport_instance" where
  "JSONP_PollingTransport_init socketIO_session secure base_url =
     Inr (JSONP_PollingTransport init
            ((if secure then ''https'' else ''http'') @ ''://'' @ base_url @ ''/jsonp-polling/''
               @ session_id socketIO_session)
            True 0)"

text \<open>
  The dictionary literal of \<^verbatim>\<open>_negotiate_transport\<close>, from transport names to constructors;
  a name that is not a key raises \<^verbatim>\<open>KeyError\<close>.
\<close>

definition transport_by_name ::
  "(string \<Rightarrow> string + 'conn) \<Rightarrow> string
     \<Rightarrow> (session \<Rightarrow> bool \<Rightarrow> string \<Rightarrow> error + ('cb, 'conn) transport_instance) option" where
  "transport_by_name create_connection name =
     (if name = ''websocket'' then Some (WebsocketTransport_init create_connection)
      else if name = ''xhr-polling'' then Some XHR_PollingTransport_init
      else if name = ''jsonp-polling'' then Some JSONP_PollingTransport_init
      else None)"

text \<open>
  The loop of \<^verbatim>\<open>_negotiate_transport\<close> over the entries of the client's list that are still to
  be tried; the whole list is kept for the error message raised after the loop.
\<close>

fun negotiate_loop ::
  "(string \<Rightarrow> string + 'conn) \<Rightarrow> string list \<Rightarrow> string list \<Rightarrow> session \<Rightarrow> bool \<Rightarrow> string
     \<Rightarrow> error + ('cb, 'conn) transport_instance" where
  "negotiate_loop create_connection client_supported_transports [] session secure base_url =
     Inl (SocketIOError (str_join '' ''
       [''could not negotiate a transport:'',
        ''client supports '' @ str_join '', '' client_supported_transports @ '' but'',
        ''server supports '' @ str_join '', '' (server_supported_transports session)]))"
| "negotiate_loop create_connection client_supported_transports (supported_transport # rest)
       session secure base_url =
     (if supported_transport \<in> set (server_supported_transports session)
      then (case transport_by_name create_connection supported_transport of
              None \<Rightarrow> Inl (KeyError supported_transport)
            | Some constructor \<Rightarrow> constructor session secure base_url)
      else negotiate_loop create_connection client_supported_transports rest
             session secure base_url)"

definition negotiate_transport ::
  "(string \<Rightarrow> string + 'conn) \<Rightarrow> string list \<Rightarrow> session \<Rightarrow> bool \<Rightarrow> string
     \<Rightarrow> error + ('cb, 'conn) transport_instance" where
  "negotiate_transport create_connection client_supported_transports session secure base_url =
     negotiate_loop create_connection client_supported_transports client_supported_transports
       session secure base_url"

section \<open>Boundary framing of the polling transports\<close>

text \<open>
  \<^verbatim>\<open>BOUNDARY\<close> is the UTF-8 encoding of the replacement character U+FFFD: the three bytes
  EF BF BD.
\<close>

definition BOUNDARY :: string where
  "BOUNDARY = [CHR 0xEF, CHR 0xBF, CHR 0xBD]"

text \<open>
  A \<^verbatim>\<open>unicode\<close> object is the list of its code points, and \<^verbatim>\<open>len\<close> of it is the length of
  that list (a wide build of Python 2; a narrow build counts a code point beyond U+FFFF
  twice). \<open>unicode_of\<close> reads an ASCII byte string as \<^verbatim>\<open>unicode\<close>, which is how Python 2 compares
  a \<^verbatim>\<open>str\<close> of digits with a \<^verbatim>\<open>unicode\<close>.
\<close>

type_synonym unicode = "nat list"

definition unicode_of :: "string \<Rightarrow> unicode" where
  "unicode_of s = map of_char s"

text \<open>
  \<^verbatim>\<open>x.decode('utf-8')\<close> as Python 2.7 does it: a lead byte below 80 stands alone, C2..DF
  takes one continuation byte, E0..EF two and F0..F4 three; the continuation bytes are
  80..BF, the first one is at least A0 after E0, at least 90 after F0 and at most 8F
  after F4. Anything else raises \<^verbatim>\<open>UnicodeDecodeError\<close>.
\<close>

definition is_cont :: "char \<Rightarrow> bool" where
  "is_cont b = (0x80 \<le> (of_char b :: nat) \<and> (of_char b :: nat) < 0xC0)"

definition cont_bits :: "char \<Rightarrow> nat" where
  "cont_bits b = of_char b - 0x80"

fun utf8_decode :: "string \<Rightarrow> unicode option" where
  "utf8_decode [] = Some []"
| "utf8_decode (b # bs) =
     (let n = (of_char b :: nat)
      in if n < 0x80 then map_option ((#) n) (utf8_decode bs)
         else if 0xC2 \<le> n \<and> n < 0xE0 then
           (case bs of
              c1 # rest \<Rightarrow>
                if is_cont c1
                then map_option ((#) ((n - 0xC0) * 64 + cont_bits c1)) (utf8_decode rest)
                else None
            | _ \<Rightarrow> None)
         else if 0xE0 \<le> n \<and> n < 0xF0 then
           (case bs of
              c1 # c2 # rest \<Rightarrow>
                if is_cont c1 \<and> is_cont c2 \<and> \<not> (n = 0xE0 \<and> (of_char c1 :: nat) < 0xA0)
                then map_option ((#) ((n - 0xE0) * 4096 + cont_bits c1 * 64 + cont_bits c2))
                       (utf8_decode rest)
                else None
            | _ \<Rightarrow> None)
         else if 0xF0 \<le> n \<and> n < 0xF5 then
           (case bs of
              c1 # c2 # c3 # rest \<Rightarrow>
                if is_cont c1 \<and> is_cont c2 \<and> is_cont c3
                   \<and> \<not> (n = 0xF0 \<and> (of_char c1 :: nat) < 0x90)
                   \<and> \<not> (n = 0xF4 \<and> 0x8F < (of_char c1 :: nat))
                then map_option
                       ((#) ((n - 0xF0) * 262144 + cont_bits c1 * 4096 + cont_bits c2 * 64
                               + cont_bits c3))
                       (utf8_decode rest)
                else None
            | _ \<Rightarrow> None)
         else None)"

definition decode_utf8 :: "string \<Rightarrow> error + unicode" where
  "decode_utf8 x = (case utf8_decode x of None \<Rightarrow> Inl UnicodeDecodeError | Some u \<Rightarrow> Inr u)"

text \<open>
  The list comprehension \<^verbatim>\<open>[x.decode('utf-8') for x in ...]\<close>: the first part that does not
  decode raises.
\<close>

fun decode_all :: "string list \<Rightarrow> error + unicode list" where
  "decode_all [] = Inr []"
| "decode_all (x # xs) =
     (case decode_utf8 x of
        Inl e \<Rightarrow> Inl e
      | Inr u \<Rightarrow> (case decode_all xs of Inl e \<Rightarrow> Inl e | Inr us \<Rightarrow> Inr (u # us)))"

text \<open>The extended slice \<^verbatim>\<open>xs[0::2]\<close>; \<^verbatim>\<open>parts[1::2]\<close> and \<^verbatim>\<open>parts[2::2]\<close> are taken after \<open>drop\<close>.\<close>

fun every_second :: "'a list \<Rightarrow> 'a list" where
  "every_second [] = []"
| "every_second [x] = [x]"
| "every_second (x # y # xs) = x # every_second xs"

text \<open>
  The loop over the pairs of \<^verbatim>\<open>izip\<close>: a text is yielded when its declared length is the
  decimal numeral of its length. The warning is logged but nothing is raised.
\<close>

fun yield_matching :: "(unicode \<times> unicode) list \<Rightarrow> unicode list" where
  "yield_matching [] = []"
| "yield_matching ((text_length, packet_text) # rest) =
     (if text_length = unicode_of (str_int (int (length packet_text)))
      then packet_text # yield_matching rest
      else yield_matching rest)"

definition yield_text_from_framed_data :: "string \<Rightarrow> error + unicode list" where
  "yield_text_from_framed_data framed_data =
     (case decode_all (str_split framed_data BOUNDARY) of
        Inl e \<Rightarrow> Inl e
      | Inr parts \<Rightarrow>
          Inr (yield_matching (zip (every_second (drop 1 parts)) (every_second (drop 2 parts)))))"

text \<open>
  \<^verbatim>\<open>response.text.encode('utf-8')\<close>, the only argument the two polling transports pass to the
  deframer: the UTF-8 bytes of a text whose code points are at most 10FFFF.
\<close>

definition encode_code_point :: "nat \<Rightarrow> string" where
  "encode_code_point cp =
     (if cp < 0x80 then [char_of cp]
      else if cp < 0x800 then [char_of (0xC0 + cp div 64), char_of (0x80 + cp mod 64)]
      else if cp < 0x10000
      then [char_of (0xE0 + cp div 4096), char_of (0x80 + cp div 64 mod 64),
            char_of (0x80 + cp mod 64)]
      else [char_of (0xF0 + cp div 262144), char_of (0x80 + cp div 4096 mod 64),
            char_of (0x80 + cp div 64 mod 64), char_of (0x80 + cp mod 64)])"

definition encode_utf8 :: "unicode \<Rightarrow> string" where
  "encode_utf8 u = concat (map encode_code_point u)"

text \<open>\<^verbatim>\<open>u.split(sep)\<close> on a list of code points, for a separator of one code point.\<close>

fun split_at :: "nat \<Rightarrow> unicode \<Rightarrow> unicode \<Rightarrow> unicode list" where
  "split_at sep acc [] = [rev acc]"
| "split_at sep acc (c # cs) =
     (if c = sep then rev acc # split_at sep [] cs else split_at sep (c # acc) cs)"

text \<open>
  The pairing in the words of the specification: the parts at the indices 1 and 2, at 3
  and 4, and so on, as long as both indices are in range.
\<close>

definition pairs_from_index_1 :: "'a list \<Rightarrow> ('a \<times> 'a) list" where
  "pairs_from_index_1 parts =
     map (\<lambda>k. (parts ! (2 * k + 1), parts ! (2 * k + 2))) [0..<(length parts - 1) div 2]"

section \<open>Facts about the text primitives\<close>

lemma digit_char_in: "d < 10 \<Longrightarrow> digit_char d \<in> set ''0123456789''"
  unfolding digit_char_def by (rule nth_mem) simp

lemma set_str_nat: "set (str_nat n) \<subseteq> set ''0123456789''"
proof (induction n rule: str_nat.induct)
  case (1 n)
  show ?case
  proof (cases "n < 10")
    case True
    then show ?thesis using digit_char_in [of n] by (subst str_nat.simps) simp
  next
    case False
    have "n mod 10 < 10" by simp
    then have "digit_char (n mod 10) \<in> set ''0123456789''" by (rule digit_char_in)
    with 1 False show ?thesis by (subst str_nat.simps) simp
  qed
qed

lemma colon_notin_str_int: "CHR '':'' \<notin> set (str_int i)"
  using set_str_nat [of "nat i"] set_str_nat [of "nat (- i)"]
  by (auto simp: str_int_def)

lemma plus_notin_str_int: "CHR ''+'' \<notin> set (str_int i)"
  using set_str_nat [of "nat i"] set_str_nat [of "nat (- i)"]
  by (auto simp: str_int_def)

lemma split_scan_zero: "split_scan sep (Some 0) acc s = [rev acc @ s]"
  by (induction s arbitrary: acc) simp_all

lemma split_scan_no_sep:
  "c \<notin> set s \<Longrightarrow> split_scan [c] lim acc s = [rev acc @ s]"
  by (induction s arbitrary: acc) auto

lemma split_scan_field:
  "c \<notin> set a \<Longrightarrow> lim \<noteq> Some 0 \<Longrightarrow>
   split_scan [c] lim acc (a @ c # rest) =
     (rev acc @ a) # split_scan [c] (map_option (\<lambda>n. n - 1) lim) [] rest"
  by (induction a arbitrary: acc) auto

lemma split_packet_text:
  assumes "CHR '':'' \<notin> set a" and "CHR '':'' \<notin> set b" and "CHR '':'' \<notin> set c"
  shows "str_split_max (a @ '':'' @ b @ '':'' @ c @ '':'' @ d) '':'' 3 = [a, b, c, d]"
  using assms by (simp add: str_split_max_def split_scan_field split_scan_zero)

section \<open>Packet codec\<close>

lemma recv_packet_four:
  "str_split_max t '':'' 3 = [a, b, c, d] \<Longrightarrow>
   recv_loop vars (Text t # rest) =
     (Some a, Some b, Some c, Some d) # recv_loop (Some a, Some b, Some c, Some d) rest"
  by (cases vars) (simp add: Let_def)

lemma send_packet_text:
  "snd (send_packet self code path data callback) =
     str_int code @ '':'' @
     (case callback of None \<Rightarrow> '''' | Some cb \<Rightarrow> str_int (packet_id self + 1) @ ''+'') @
     '':'' @ path @ '':'' @ data"
  by (simp add: send_packet_def set_ack_callback_def Let_def split: option.split)

text \<open>
  Claim C1 (round trip). The code of a packet is an integer and goes onto the wire as
  \<^verbatim>\<open>str(code)\<close>; the decoder returns that text. When neither the packet id nor the path
  contains a colon, joining the four fields with \<open>:\<close> and decoding the text with
  \<^verbatim>\<open>recv_packet\<close> (a split on \<open>:\<close> into at most four fields) gives back the four fields, the
  data with any colons of its own. This holds for any packet id, and so for the two ids
  that \<^verbatim>\<open>send_packet\<close> itself produces: the empty one without a callback and the minted
  one with a callback.
\<close>

theorem send_packet_recv_packet_roundtrip:
  assumes "CHR '':'' \<notin> set pid" and "CHR '':'' \<notin> set path"
  shows "recv_packet [Text (str_join '':'' [str_int code, pid, path, data])] =
           [(Some (str_int code), Some pid, Some path, Some data)]
       \<and> recv_packet [Text (snd (send_packet self code path data None))] =
           [(Some (str_int code), Some '''', Some path, Some data)]
       \<and> recv_packet [Text (snd (send_packet self code path data (Some cb)))] =
           [(Some (str_int code), Some (snd (set_ack_callback self cb)), Some path, Some data)]"
proof (intro conjI)
  have "str_split_max (str_int code @ '':'' @ pid @ '':'' @ path @ '':'' @ data) '':'' 3 =
          [str_int code, pid, path, data]"
    using assms by (intro split_packet_text colon_notin_str_int)
  then show "recv_packet [Text (str_join '':'' [str_int code, pid, path, data])] =
           [(Some (str_int code), Some pid, Some path, Some data)]"
    by (simp add: recv_packet_def recv_packet_four)
next
  have "str_split_max (str_int code @ '':'' @ '''' @ '':'' @ path @ '':'' @ data) '':'' 3 =
          [str_int code, '''', path, data]"
    using assms by (intro split_packet_text colon_notin_str_int) simp
  then show "recv_packet [Text (snd (send_packet self code path data None))] =
           [(Some (str_int code), Some '''', Some path, Some data)]"
    by (simp add: recv_packet_def recv_packet_four send_packet_text)
next
  let ?p = "str_int (packet_id self + 1) @ ''+''"
  have "CHR '':'' \<notin> set ?p"
    using colon_notin_str_int [of "packet_id self + 1"] by simp
  then have "str_split_max (str_int code @ '':'' @ ?p @ '':'' @ path @ '':'' @ data) '':'' 3 =
          [str_int code, ?p, path, data]"
    using assms by (intro split_packet_text colon_notin_str_int)
  then show "recv_packet [Text (snd (send_packet self code path data (Some cb)))] =
           [(Some (str_int code), Some (snd (set_ack_callback self cb)), Some path, Some data)]"
    by (simp add: recv_packet_def recv_packet_four send_packet_text set_ack_callback_def Let_def)
qed

theorem send_packet_recv_packet_roundtrip_witness:
  "CHR '':'' \<notin> set ''7+'' \<and> CHR '':'' \<notin> set ''/chat''
   \<and> recv_packet [Text ''5:7+:/chat:a:b''] =
       [(Some ''5'', Some ''7+'', Some ''/chat'', Some ''a:b'')]
   \<and> recv_packet [Text (snd (send_packet (init :: nat transport) 5 ''/chat'' ''a:b'' (Some 0)))] =
       [(Some ''5'', Some ''1+'', Some ''/chat'', Some ''a:b'')]"
  using send_packet_recv_packet_roundtrip
    [of "''7+''" "''/chat''" 5 "''a:b''" "init :: nat transport" 0]
  by (simp add: str_int_def str_nat.simps digit_char_def set_ack_callback_def init_def)

lemma length_recv_loop_Text: "length (recv_loop vars (map Text texts)) = length texts"
proof (induction texts arbitrary: vars)
  case Nil
  then show ?case by simp
next
  case (Cons t texts)
  then show ?case by (cases vars) (simp add: Let_def)
qed

lemma recv_loop_other_count:
  assumes "length (str_split_max t '':'' 3) \<notin> {1, 3, 4}"
  shows "recv_loop vars (Text t # rest) = vars # recv_loop vars rest"
  using assms by (cases vars) (auto simp: Let_def)

text \<open>
  Claim C2 as stated fails: a text that splits into two fields is not skipped. The
  \<^verbatim>\<open>yield\<close> is not guarded by the field count, so the unit \<^verbatim>\<open>a:b\<close>, alone in its batch,
  yields one tuple, all of whose fields are \<^verbatim>\<open>None\<close>.
\<close>

theorem recv_packet_two_fields_counterexample:
  "length (str_split_max ''a:b'' '':'' 3) = 2
   \<and> recv_packet [Text ''a:b''] = [(None, None, None, None)]"
  by (simp add: recv_packet_def str_split_max_def Let_def)

text \<open>
  Claim C2, amended. A text unit whose split on \<open>:\<close> (at most four fields) has a field
  count other than 1, 3 or 4 raises nothing and is not skipped: \<^verbatim>\<open>recv_packet\<close> yields exactly
  one tuple for every text unit of a batch, wherever a unit of such a count stands in
  it, and the units after it are processed as usual. At the head of a batch the tuple
  yielded for such a unit has all four fields \<^verbatim>\<open>None\<close>, and the rest of the batch is decoded
  as if the unit were not there.
\<close>

theorem recv_packet_other_count_yields:
  assumes "length (str_split_max t '':'' 3) \<notin> {1, 3, 4}"
  shows "recv_packet (Text t # rest) = (None, None, None, None) # recv_packet rest
       \<and> length (recv_packet (map Text (before @ t # after))) = length before + 1 + length after"
proof
  show "recv_packet (Text t # rest) = (None, None, None, None) # recv_packet rest"
    unfolding recv_packet_def using assms by (rule recv_loop_other_count)
next
  have "length (recv_packet (map Text (before @ t # after))) = length (before @ t # after)"
    unfolding recv_packet_def by (rule length_recv_loop_Text)
  then show "length (recv_packet (map Text (before @ t # after))) =
      length before + 1 + length after"
    by simp
qed

theorem recv_packet_other_count_yields_witness:
  "length (str_split_max ''a:b'' '':'' 3) \<notin> {1, 3, 4}
   \<and> recv_packet [Text ''a:b'', Text ''2'']
       = [(None, None, None, None), (Some ''2'', None, None, None)]
   \<and> length (recv_packet [Text ''1::'', Text ''a:b'', Text ''8'']) = 3"
proof -
  have h: "length (str_split_max ''a:b'' '':'' 3) \<notin> {1, 3, 4}"
    by (simp add: str_split_max_def)
  have r: "recv_packet [Text ''2''] = [(Some ''2'', None, None, None)]"
    by (simp add: recv_packet_def str_split_max_def Let_def)
  show ?thesis
    using h r recv_packet_other_count_yields [OF h, of "[Text ''2'']" "[''1::'']" "[''8'']"]
    by simp
qed

text \<open>
  Claim C3 at a batch of three units. The four variables are set to \<^verbatim>\<open>None\<close> before the
  loop and never reset in it, so the three-field unit \<^verbatim>\<open>1::/b\<close> is yielded with the data of
  the packet before it, and the bare code \<^verbatim>\<open>2\<close> with the packet id, path and data of the
  packets before it, where the claim says these fields are absent.
\<close>

theorem recv_packet_stale_fields:
  "recv_packet [Text ''3:1:/a:hello'', Text ''1::/b'', Text ''2''] =
     [(Some ''3'', Some ''1'', Some ''/a'', Some ''hello''),
      (Some ''1'', Some '''', Some ''/b'', Some ''hello''),
      (Some ''2'', Some '''', Some ''/b'', Some ''hello'')]"
  by (simp add: recv_packet_def str_split_max_def Let_def)

text \<open>
  Claim C4 as stated fails: \<^verbatim>\<open>send_packet\<close> joins all four fields and truncates nothing, so
  the heartbeat goes out as \<^verbatim>\<open>2:::\<close>, not as the bare code \<^verbatim>\<open>2\<close>.
\<close>

theorem send_heartbeat_counterexample:
  "snd (send_heartbeat (init :: nat transport)) = ''2:::''
   \<and> snd (send_heartbeat (init :: nat transport)) \<noteq> ''2''"
  by (simp add: send_heartbeat_def send_packet_text str_int_def str_nat.simps digit_char_def)

text \<open>
  Claim C4, amended. The wire text produced by \<^verbatim>\<open>send_packet\<close> is always the join of all
  four fields \<^verbatim>\<open>code:packetId:path:data\<close> with the three colons kept, empty fields included:
  the packet id is empty without a callback and the minted id with one. In particular
  \<^verbatim>\<open>send_heartbeat\<close> emits the text \<^verbatim>\<open>2:::\<close> and leaves the transport's state as it was.
\<close>

theorem send_packet_always_four_fields:
  "snd (send_packet self code path data None) = str_int code @ ''::'' @ path @ '':'' @ data
   \<and> snd (send_packet self code path data (Some cb)) =
       str_int code @ '':'' @ snd (set_ack_callback self cb) @ '':'' @ path @ '':'' @ data
   \<and> send_heartbeat self = (self, ''2:::'')"
  by (simp add: send_heartbeat_def send_packet_def set_ack_callback_def Let_def
        str_int_def str_nat.simps digit_char_def)

section \<open>Acknowledgment registry\<close>

lemma set_ack_callback_packet_id:
  "packet_id (fst (set_ack_callback self cb)) = packet_id self + 1"
  by (simp add: set_ack_callback_def Let_def)

lemma set_ack_callback_id:
  "snd (set_ack_callback self cb) = str_int (packet_id self + 1) @ ''+''"
  by (simp add: set_ack_callback_def Let_def)

lemma get_ack_callback_packet_id:
  "get_ack_callback self k = Inr (cb, self') \<Longrightarrow> packet_id self' = packet_id self"
  by (auto simp: get_ack_callback_def split: option.splits)

lemma run_ids:
  "snd (run self calls) =
     map (\<lambda>n. str_int (packet_id self + int n) @ ''+'') [1..<Suc (length (filter is_set calls))]"
proof (induction calls arbitrary: self)
  case Nil
  then show ?case by simp
next
  case (Cons c calls)
  show ?case
  proof (cases c)
    case (Set_ack_callback cb)
    let ?k = "length (filter is_set calls)"
    have upt: "[1..<Suc (Suc ?k)] = 1 # map Suc [1..<Suc ?k]"
      by (simp add: upt_conv_Cons map_Suc_upt del: upt_Suc)
    have "snd (run self (c # calls)) =
        snd (set_ack_callback self cb) # snd (run (fst (set_ack_callback self cb)) calls)"
      using Set_ack_callback by (simp add: split_beta Let_def)
    also have "\<dots> = (str_int (packet_id self + 1) @ ''+'') #
        map (\<lambda>n. str_int (packet_id self + 1 + int n) @ ''+'') [1..<Suc ?k]"
      by (simp only: Cons.IH set_ack_callback_id set_ack_callback_packet_id)
    also have "\<dots> = map (\<lambda>n. str_int (packet_id self + int n) @ ''+'') [1..<Suc (Suc ?k)]"
      by (simp only: upt list.map map_map o_def) (simp add: algebra_simps)
    finally show ?thesis using Set_ack_callback by simp
  next
    case (Get_ack_callback k)
    show ?thesis
    proof (cases "get_ack_callback self k")
      case (Inl e)
      with Get_ack_callback Cons.IH [of self] show ?thesis by simp
    next
      case (Inr r)
      obtain cb self' where r: "r = (cb, self')" by (cases r)
      with Inr have "packet_id self' = packet_id self"
        by (auto dest: get_ack_callback_packet_id)
      with Get_ack_callback Inr r Cons.IH [of self'] show ?thesis by simp
    qed
  qed
qed

text \<open>
  Claim C8 (ack-id monotonicity). On one transport instance, starting from the state that
  \<^verbatim>\<open>__init__\<close> sets up, the ids returned by the \<^verbatim>\<open>set_ack_callback\<close> calls of any sequence of
  registry calls are \<^verbatim>\<open>"1+"\<close>, \<^verbatim>\<open>"2+"\<close>, ... in this order: the n-th such call returns
  \<^verbatim>\<open>str(n) + "+"\<close>, whatever \<^verbatim>\<open>get_ack_callback\<close> calls stand between them.
\<close>

theorem set_ack_callback_nth_id:
  "snd (run init calls) =
     map (\<lambda>n. str_int (int n) @ ''+'') [1..<Suc (length (filter is_set calls))]"
  using run_ids [of init calls] by (simp add: init_def)

text \<open>
  Claim C9 (at-most-once claim). For an id under which a callback is registered,
  \<^verbatim>\<open>get_ack_callback\<close> returns that callback and removes the entry: a second call with the same
  id raises \<^verbatim>\<open>KeyError\<close>, every other entry of the registry and the counter are unchanged. A
  call with an id that is not registered raises \<^verbatim>\<open>KeyError\<close>.
\<close>

theorem get_ack_callback_at_most_once:
  assumes "callback_by_packet_id self pid = Some cb"
  shows "(\<exists>self'. get_ack_callback self pid = Inr (cb, self')
            \<and> get_ack_callback self' pid = Inl (KeyError pid)
            \<and> callback_by_packet_id self' pid = None
            \<and> (\<forall>k. k \<noteq> pid \<longrightarrow> callback_by_packet_id self' k = callback_by_packet_id self k)
            \<and> packet_id self' = packet_id self)
       \<and> (callback_by_packet_id self other = None \<longrightarrow>
            get_ack_callback self other = Inl (KeyError other))"
  using assms by (simp add: get_ack_callback_def)

theorem get_ack_callback_at_most_once_witness:
  "callback_by_packet_id (fst (set_ack_callback (init :: nat transport) 42)) ''1'' = Some 42
   \<and> (\<exists>self'. get_ack_callback (fst (set_ack_callback (init :: nat transport) 42)) ''1'' = Inr (42, self')
         \<and> get_ack_callback self' ''1'' = Inl (KeyError ''1''))
   \<and> get_ack_callback (fst (set_ack_callback (init :: nat transport) 42)) ''2'' = Inl (KeyError ''2'')"
proof -
  let ?s = "fst (set_ack_callback (init :: nat transport) 42)"
  have h: "callback_by_packet_id ?s ''1'' = Some 42"
    by (simp add: set_ack_callback_def init_def str_int_def str_nat.simps digit_char_def)
  have n: "callback_by_packet_id ?s ''2'' = None"
    by (simp add: set_ack_callback_def init_def str_int_def str_nat.simps digit_char_def)
  from get_ack_callback_at_most_once [OF h, of "''2''"] n h show ?thesis
    by blast
qed

lemma plus_free_init: "plus_free init"
  by (simp add: plus_free_def init_def)

lemma plus_free_set: "plus_free self \<Longrightarrow> plus_free (fst (set_ack_callback self cb))"
  by (simp add: plus_free_def set_ack_callback_def Let_def plus_notin_str_int)

lemma plus_free_get:
  "plus_free self \<Longrightarrow> get_ack_callback self k = Inr (cb, self') \<Longrightarrow> plus_free self'"
  by (auto simp: plus_free_def get_ack_callback_def split: option.splits if_splits)

lemma plus_free_run: "plus_free self \<Longrightarrow> plus_free (fst (run self calls))"
proof (induction calls arbitrary: self)
  case Nil
  then show ?case by simp
next
  case (Cons c calls)
  show ?case
  proof (cases c)
    case (Set_ack_callback cb)
    have "plus_free (fst (run (fst (set_ack_callback self cb)) calls))"
      using Cons.prems by (intro Cons.IH plus_free_set)
    then show ?thesis using Set_ack_callback by (simp add: split_beta Let_def)
  next
    case (Get_ack_callback k)
    show ?thesis
    proof (cases "get_ack_callback self k")
      case (Inl e)
      with Get_ack_callback Cons show ?thesis by simp
    next
      case (Inr r)
      obtain cb self' where r: "r = (cb, self')" by (cases r)
      with Inr Cons.prems have "plus_free self'" by (auto dest: plus_free_get)
      then have "plus_free (fst (run self' calls))" by (rule Cons.IH)
      with Get_ack_callback Inr r show ?thesis by simp
    qed
  qed
qed

lemma rstrip_snoc: "c \<notin> set s \<Longrightarrow> rstrip c (s @ [c]) = s"
proof -
  assume "c \<notin> set s"
  then have "dropWhile (\<lambda>x. x = c) (rev s) = rev s" by (cases "rev s") auto
  then show ?thesis by (simp add: rstrip_def)
qed

text \<open>
  Claim C10. Take any instance reached from \<^verbatim>\<open>__init__\<close> by registry calls and register a
  callback on it. The id that \<^verbatim>\<open>set_ack_callback\<close> returns is \<^verbatim>\<open>str(n) + "+"\<close> for the new counter
  value \<open>n\<close>, while the callback is stored under the key \<^verbatim>\<open>str(n)\<close>. So \<^verbatim>\<open>get_ack_callback\<close> with
  the returned id as it is raises \<^verbatim>\<open>KeyError\<close>, and with the trailing \<open>+\<close> stripped
  (\<^verbatim>\<open>rstrip('+')\<close>, as \<^verbatim>\<open>ack\<close> does) it returns the callback.
\<close>

theorem returned_packet_id_is_not_a_key:
  "get_ack_callback (fst (set_ack_callback (fst (run init calls)) cb))
       (snd (set_ack_callback (fst (run init calls)) cb)) =
     Inl (KeyError (snd (set_ack_callback (fst (run init calls)) cb)))
   \<and> (\<exists>self'. get_ack_callback (fst (set_ack_callback (fst (run init calls)) cb))
         (rstrip (CHR ''+'') (snd (set_ack_callback (fst (run init calls)) cb))) = Inr (cb, self'))
   \<and> callback_by_packet_id (fst (set_ack_callback (fst (run init calls)) cb))
        (str_int (packet_id (fst (run init calls)) + 1)) = Some cb
   \<and> snd (set_ack_callback (fst (run init calls)) cb) =
        str_int (packet_id (fst (run init calls)) + 1) @ ''+''"
proof -
  let ?s = "fst (run (init :: 'a transport) calls)"
  let ?n = "packet_id ?s + 1"
  let ?s' = "fst (set_ack_callback ?s cb)"
  have id: "snd (set_ack_callback ?s cb) = str_int ?n @ ''+''"
    by (rule set_ack_callback_id)
  have "plus_free ?s'"
    by (intro plus_free_set plus_free_run plus_free_init)
  then have "callback_by_packet_id ?s' (str_int ?n @ ''+'') = None"
    unfolding plus_free_def by (metis in_set_conv_decomp append_Cons append_Nil)
  then have a: "get_ack_callback ?s' (str_int ?n @ ''+'') = Inl (KeyError (str_int ?n @ ''+''))"
    by (simp add: get_ack_callback_def)
  have stored: "callback_by_packet_id ?s' (str_int ?n) = Some cb"
    by (simp add: set_ack_callback_def Let_def)
  have "rstrip (CHR ''+'') (str_int ?n @ ''+'') = str_int ?n"
    using rstrip_snoc [OF plus_notin_str_int] by simp
  with stored have b: "\<exists>self'. get_ack_callback ?s'
      (rstrip (CHR ''+'') (str_int ?n @ ''+'')) = Inr (cb, self')"
    by (simp add: get_ack_callback_def)
  from a b stored id show ?thesis by simp
qed

section \<open>The \<^verbatim>\<open>message\<close> operation\<close>

lemma escape_char_non_ascii:
  assumes "0x80 \<le> (of_char c :: nat)"
  shows "escape_char c = [c]"
proof -
  have ne: "c \<noteq> d" if "(of_char d :: nat) < 0x80" for d
    using that assms by auto
  have "c \<noteq> CHR 0x5C" and "c \<noteq> CHR 0x22" and "c \<noteq> CHR 0x08" and "c \<noteq> CHR 0x0C"
    and "c \<noteq> CHR 0x0A" and "c \<noteq> CHR 0x0D" and "c \<noteq> CHR 0x09"
    by (rule ne, simp)+
  moreover have "\<not> (of_char c :: nat) < 0x20"
    using assms by simp
  ultimately show ?thesis
    by (simp only: escape_char_def if_False)
qed

lemma concat_escape_non_ascii:
  "list_all (\<lambda>c. 0x80 \<le> (of_char c :: nat)) s \<Longrightarrow> concat (map escape_char s) = s"
  by (induction s) (simp_all add: escape_char_non_ascii)

lemma message_text:
  "message self path (PyStr body) callback = send_packet self 3 path body callback"
  by (simp add: message_def)

lemma message_structured:
  "\<not> is_PyStr data \<Longrightarrow>
   message self path data callback = send_packet self 4 path (dumps data) callback"
  by (cases data) (simp_all add: message_def)

lemma send_packet_no_callback:
  "send_packet self code path data None = (self, str_int code @ ''::'' @ path @ '':'' @ data)"
  by (simp add: send_packet_def)

lemma str_int_3: "str_int 3 = ''3''"
  by (simp add: str_int_def str_nat.simps digit_char_def)

lemma str_int_4: "str_int 4 = ''4''"
  by (simp add: str_int_def str_nat.simps digit_char_def)

text \<open>
  Claim C5. Without a callback, \<^verbatim>\<open>message\<close> sends a text as a MESSAGE packet (code 3) with
  the text itself as data, and any other value as a JSON_MESSAGE packet (code 4) whose data
  is the value's \<^verbatim>\<open>json.dumps(..., ensure_ascii=False)\<close> form; the packet id is empty and the
  transport's state is unchanged. A text of non-ASCII characters is serialised as the same
  characters between double quotes, nothing escaped. The two examples of the specification:
  \<^verbatim>\<open>message("/chat", "hello", None)\<close> sends \<^verbatim>\<open>3::/chat:hello\<close>, and
  \<^verbatim>\<open>message("/chat", {"a": 1}, None)\<close> sends \<^verbatim>\<open>4::/chat:{"a": 1}\<close>.
\<close>

theorem message_without_callback:
  \<open>message self path (PyStr text) None = (self, ''3::'' @ path @ '':'' @ text)
   \<and> (\<not> is_PyStr data \<longrightarrow>
        message self path data None = (self, ''4::'' @ path @ '':'' @ dumps data))
   \<and> (list_all (\<lambda>c. 0x80 \<le> (of_char c :: nat)) text \<longrightarrow>
        dumps (PyStr text) = [CHR 0x22] @ text @ [CHR 0x22])
   \<and> message self ''/chat'' (PyStr ''hello'') None = (self, ''3::/chat:hello'')
   \<and> message self ''/chat'' (PyDict [(''a'', PyInt 1)]) None = (self, ''4::/chat:{"a": 1}'')\<close>
proof (intro conjI impI)
  show "message self path (PyStr text) None = (self, ''3::'' @ path @ '':'' @ text)"
    by (simp add: message_text send_packet_no_callback str_int_3)
  show "message self ''/chat'' (PyStr ''hello'') None = (self, ''3::/chat:hello'')"
    by (simp add: message_text send_packet_no_callback str_int_3)
  show \<open>message self ''/chat'' (PyDict [(''a'', PyInt 1)]) None = (self, ''4::/chat:{"a": 1}'')\<close>
    by (simp add: message_structured send_packet_no_callback str_int_4
          encode_basestring_def escape_char_def str_int_def str_nat.simps digit_char_def)
next
  assume "\<not> is_PyStr data"
  then show "message self path data None = (self, ''4::'' @ path @ '':'' @ dumps data)"
    by (simp add: message_structured send_packet_no_callback str_int_4)
next
  assume "list_all (\<lambda>c. 0x80 \<le> (of_char c :: nat)) text"
  then show "dumps (PyStr text) = [CHR 0x22] @ text @ [CHR 0x22]"
    by (simp add: encode_basestring_def concat_escape_non_ascii)
qed

theorem message_without_callback_witness:
  \<open>\<not> is_PyStr (PyList [PyStr [CHR 0xC3, CHR 0xA9], PyNone, PyBool True])
   \<and> message (init :: nat transport) ''/n'' (PyList [PyStr [CHR 0xC3, CHR 0xA9], PyNone, PyBool True]) None =
       (init, ''4::/n:['' @ [CHR 0x22, CHR 0xC3, CHR 0xA9, CHR 0x22] @ '', null, true]'')
   \<and> list_all (\<lambda>c. 0x80 \<le> (of_char c :: nat)) [CHR 0xC3, CHR 0xA9]
   \<and> dumps (PyStr [CHR 0xC3, CHR 0xA9]) = [CHR 0x22, CHR 0xC3, CHR 0xA9, CHR 0x22]\<close>
  using message_without_callback
    [of "init :: nat transport" "''/n''" "[CHR 0xC3, CHR 0xA9]"
        "PyList [PyStr [CHR 0xC3, CHR 0xA9], PyNone, PyBool True]"]
  by (simp add: encode_basestring_def escape_char_def)

section \<open>Transport negotiation\<close>


text \<open>
  The specification's interface of the session draws \<^verbatim>\<open>server_supported_transports\<close> from the
  three names \<^verbatim>\<open>websocket\<close>, \<^verbatim>\<open>xhr-polling\<close> and \<^verbatim>\<open>jsonp-polling\<close>, the keys of the dictionary
  literal. For a name that is in both lists but is not a key, the lookup raises \<^verbatim>\<open>KeyError\<close>.
\<close>

lemma negotiate_transport_name_outside_interface:
  "negotiate_transport (\<lambda>url. Inr url) [''htmlfile'', ''websocket'']
     \<lparr>session_id = ''abc'', server_supported_transports = [''websocket'', ''htmlfile'']\<rparr>
     False ''localhost:8000/socket.io/1''
   = (Inl (KeyError ''htmlfile'') :: error + (nat, string) transport_instance)"
  by (simp add: negotiate_transport_def transport_by_name_def)



section \<open>Boundary framing\<close>

lemma every_second_Cons: "every_second (y # xs) = y # every_second (drop 1 xs)"
  by (cases xs) simp_all

lemma zip_every_second:
  "zip (every_second q) (every_second (drop 1 q)) =
     map (\<lambda>k. (q ! (2 * k), q ! (2 * k + 1))) [0..<length q div 2]"
proof (induction q rule: every_second.induct)
  case 1
  show ?case by simp
next
  case (2 x)
  show ?case by simp
next
  case (3 x y xs)
  have "zip (every_second (x # y # xs)) (every_second (drop 1 (x # y # xs))) =
      (x, y) # zip (every_second xs) (every_second (drop 1 xs))"
    by (simp add: every_second_Cons)
  also have "\<dots> = (x, y) # map (\<lambda>k. (xs ! (2 * k), xs ! (2 * k + 1))) [0..<length xs div 2]"
    by (simp only: "3.IH")
  also have "\<dots> = map (\<lambda>k. ((x # y # xs) ! (2 * k), (x # y # xs) ! (2 * k + 1)))
      (0 # map Suc [0..<length xs div 2])"
    by simp
  also have "0 # map Suc [0..<length xs div 2] = [0..<length (x # y # xs) div 2]"
    by (simp add: map_Suc_upt upt_conv_Cons del: upt_Suc)
  finally show ?case .
qed

lemma framed_pairs:
  "zip (every_second (drop 1 parts)) (every_second (drop 2 parts)) =
     map (\<lambda>k. (parts ! (2 * k + 1), parts ! (2 * k + 2))) [0..<(length parts - 1) div 2]"
proof -
  have "zip (every_second (drop 1 parts)) (every_second (drop 1 (drop 1 parts))) =
      map (\<lambda>k. (drop 1 parts ! (2 * k), drop 1 parts ! (2 * k + 1)))
        [0..<length (drop 1 parts) div 2]"
    by (rule zip_every_second)
  also have "\<dots> = map (\<lambda>k. (parts ! (2 * k + 1), parts ! (2 * k + 2)))
      [0..<(length parts - 1) div 2]"
    by (rule map_cong) (auto simp: nth_drop)
  finally show ?thesis by (simp add: numeral_2_eq_2)
qed

lemma yield_matching_filter:
  "yield_matching pairs =
     map snd (filter (\<lambda>p. fst p = unicode_of (str_int (int (length (snd p))))) pairs)"
  by (induction pairs rule: yield_matching.induct) simp_all

lemma deframe_decoded:
  assumes "decode_all (str_split framed_data BOUNDARY) = Inr parts"
  shows "yield_text_from_framed_data framed_data =
     Inr (map snd (filter (\<lambda>p. fst p = unicode_of (str_int (int (length (snd p)))))
            (map (\<lambda>k. (parts ! (2 * k + 1), parts ! (2 * k + 2)))
               [0..<(length parts - 1) div 2])))"
  unfolding yield_text_from_framed_data_def assms framed_pairs yield_matching_filter
  by simp

subsection \<open>UTF-8: decoding what was encoded\<close>

lemma char_of_neq:
  assumes "n < 256" and "n \<noteq> of_char c"
  shows "char_of (n::nat) \<noteq> c"
proof
  assume "char_of n = c"
  then have "(of_char (char_of n) :: nat) = of_char c" by simp
  then have "n mod 256 = of_char c" by (simp only: of_char_of)
  with assms show False by simp
qed

lemma decode_1:
  assumes "a < 0x80"
  shows "utf8_decode (char_of a # rest) = map_option ((#) a) (utf8_decode rest)"
  using assms by (simp add: Let_def)

lemma decode_2:
  assumes "2 \<le> a" and "a < 32" and "b < 64"
  shows "utf8_decode (char_of (0xC0 + a) # char_of (0x80 + b) # rest) =
     map_option ((#) (a * 64 + b)) (utf8_decode rest)"
  using assms by (simp add: Let_def is_cont_def cont_bits_def)

lemma decode_3:
  assumes "a < 16" and "b < 64" and "c < 64" and "a = 0 \<Longrightarrow> 32 \<le> b"
  shows "utf8_decode (char_of (0xE0 + a) # char_of (0x80 + b) # char_of (0x80 + c) # rest) =
     map_option ((#) (a * 4096 + b * 64 + c)) (utf8_decode rest)"
  using assms by (auto simp: Let_def is_cont_def cont_bits_def)

lemma decode_4:
  assumes "a < 5" and "b < 64" and "c < 64" and "d < 64"
    and "a = 0 \<Longrightarrow> 16 \<le> b" and "a = 4 \<Longrightarrow> b < 16"
  shows "utf8_decode (char_of (0xF0 + a) # char_of (0x80 + b) # char_of (0x80 + c)
            # char_of (0x80 + d) # rest) =
     map_option ((#) (a * 262144 + b * 4096 + c * 64 + d)) (utf8_decode rest)"
  using assms by (auto simp: Let_def is_cont_def cont_bits_def)

lemma div_4096: "(cp::nat) div 4096 = cp div 64 div 64"
  by (simp add: div_mult2_eq [symmetric])

lemma div_262144: "(cp::nat) div 262144 = cp div 64 div 64 div 64"
  by (simp add: div_mult2_eq [symmetric])

lemma three_byte_fields:
  fixes cp :: nat
  assumes "0x800 \<le> cp" "cp < 0x10000"
  shows "cp div 4096 < 16" and "cp div 64 mod 64 < 64" and "cp mod 64 < 64"
    and "cp div 4096 = 0 \<Longrightarrow> 32 \<le> cp div 64 mod 64"
    and "cp div 4096 * 4096 + cp div 64 mod 64 * 64 + cp mod 64 = cp"
proof -
  define x where "x = cp div 64"
  have x: "32 \<le> x" "x < 1024" using assms unfolding x_def by simp_all
  have cp: "cp = x * 64 + cp mod 64" unfolding x_def by simp
  show "cp div 4096 < 16" unfolding div_4096 x_def [symmetric] using x by simp
  show "cp div 64 mod 64 < 64" by simp
  show "cp mod 64 < 64" by simp
  show "32 \<le> cp div 64 mod 64" if "cp div 4096 = 0"
    using that x unfolding div_4096 x_def [symmetric] by simp
  have "x = x div 64 * 64 + x mod 64" by simp
  then have "x div 64 * 4096 + x mod 64 * 64 = x * 64" by linarith
  then show "cp div 4096 * 4096 + cp div 64 mod 64 * 64 + cp mod 64 = cp"
    unfolding div_4096 x_def [symmetric] using cp by simp
qed

lemma four_byte_fields:
  fixes cp :: nat
  assumes "0x10000 \<le> cp" "cp \<le> 0x10FFFF"
  shows "cp div 262144 < 5" and "cp div 4096 mod 64 < 64" and "cp div 64 mod 64 < 64"
      and "cp mod 64 < 64"
      and "cp div 262144 = 0 \<Longrightarrow> 16 \<le> cp div 4096 mod 64"
      and "cp div 262144 = 4 \<Longrightarrow> cp div 4096 mod 64 < 16"
      and "cp div 262144 * 262144 + cp div 4096 mod 64 * 4096 + cp div 64 mod 64 * 64
            + cp mod 64 = cp"
proof -
  define x where "x = cp div 64"
  define y where "y = x div 64"
  have x: "1024 \<le> x" "x < 17408" using assms unfolding x_def by simp_all
  have y: "16 \<le> y" "y < 272" using x unfolding y_def by simp_all
  have cp: "cp = x * 64 + cp mod 64" unfolding x_def by simp
  have xy: "x = y * 64 + x mod 64" unfolding y_def by simp
  have yy: "y = y div 64 * 64 + y mod 64" by simp
  show "cp div 262144 < 5" unfolding div_262144 x_def [symmetric] y_def [symmetric] using y by simp
  show "cp div 4096 mod 64 < 64" by simp
  show "cp div 64 mod 64 < 64" by simp
  show "cp mod 64 < 64" by simp
  show "16 \<le> cp div 4096 mod 64" if "cp div 262144 = 0"
    using that y unfolding div_262144 div_4096 x_def [symmetric] y_def [symmetric] by simp
  show "cp div 4096 mod 64 < 16" if "cp div 262144 = 4"
  proof -
    from that have "y div 64 = 4"
      unfolding div_262144 x_def [symmetric] y_def [symmetric] .
    with yy have "y = 256 + y mod 64" by simp
    with y have "y mod 64 < 16" by linarith
    then show ?thesis unfolding div_4096 x_def [symmetric] y_def [symmetric] .
  qed
  have "y div 64 * 262144 + y mod 64 * 4096 = y * 4096"
    using yy by linarith
  moreover have "y * 4096 + x mod 64 * 64 = x * 64"
    using xy by simp
  ultimately show "cp div 262144 * 262144 + cp div 4096 mod 64 * 4096 + cp div 64 mod 64 * 64
            + cp mod 64 = cp"
    unfolding div_262144 div_4096 x_def [symmetric] y_def [symmetric] using cp by simp
qed

lemma decode_encode_code_point:
  assumes "cp \<le> 0x10FFFF"
  shows "utf8_decode (encode_code_point cp @ rest) = map_option ((#) cp) (utf8_decode rest)"
proof -
  consider "cp < 0x80" | "0x80 \<le> cp" "cp < 0x800" | "0x800 \<le> cp" "cp < 0x10000"
    | "0x10000 \<le> cp"
    by linarith
  then show ?thesis
  proof cases
    case 1
    then show ?thesis by (simp add: encode_code_point_def decode_1 del: utf8_decode.simps)
  next
    case 2
    have "2 \<le> cp div 64" and "cp div 64 < 32" and "cp mod 64 < 64"
      and "cp div 64 * 64 + cp mod 64 = cp"
      using 2 by simp_all
    then show ?thesis
      using 2 decode_2 [of "cp div 64" "cp mod 64" rest]
      by (simp add: encode_code_point_def del: utf8_decode.simps)
  next
    case 3
    then show ?thesis
      using three_byte_fields [of cp]
        decode_3 [of "cp div 4096" "cp div 64 mod 64" "cp mod 64" rest]
      by (simp add: encode_code_point_def del: utf8_decode.simps)
  next
    case 4
    then show ?thesis
      using assms four_byte_fields [of cp]
        decode_4 [of "cp div 262144" "cp div 4096 mod 64" "cp div 64 mod 64" "cp mod 64" rest]
      by (simp add: encode_code_point_def del: utf8_decode.simps)
  qed
qed

lemma decode_encode_utf8:
  "list_all (\<lambda>cp. cp \<le> 0x10FFFF) u \<Longrightarrow> utf8_decode (encode_utf8 u) = Some u"
proof (induction u)
  case Nil
  show ?case by (simp add: encode_utf8_def)
next
  case (Cons cp u)
  then have "utf8_decode (encode_utf8 u) = Some u" and "cp \<le> 0x10FFFF" by simp_all
  then show ?case
    using decode_encode_code_point [of cp "encode_utf8 u"]
    by (simp add: encode_utf8_def del: utf8_decode.simps)
qed

subsection \<open>Splitting an encoded text on the boundary bytes\<close>

lemma scan_other:
  "b \<noteq> CHR 0xEF \<Longrightarrow>
   split_scan BOUNDARY None acc (b # rest) = split_scan BOUNDARY None (b # acc) rest"
  by (simp add: BOUNDARY_def)

lemma scan_boundary:
  "split_scan BOUNDARY None acc (BOUNDARY @ rest) = rev acc # split_scan BOUNDARY None [] rest"
  by (simp add: BOUNDARY_def)

lemma scan_lead_EF:
  "\<not> (b2 = CHR 0xBF \<and> b3 = CHR 0xBD) \<Longrightarrow>
   split_scan BOUNDARY None acc (CHR 0xEF # b2 # b3 # rest) =
     split_scan BOUNDARY None (CHR 0xEF # acc) (b2 # b3 # rest)"
  by (auto simp: BOUNDARY_def)

lemma cont_neq_EF: "b < 64 \<Longrightarrow> char_of (0x80 + b :: nat) \<noteq> CHR 0xEF"
  by (rule char_of_neq) simp_all

lemma cont_eq:
  assumes "b < 64" and "char_of (0x80 + b :: nat) = c"
  shows "0x80 + b = (of_char c :: nat)"
proof -
  from assms(2) have "(of_char (char_of (0x80 + b)) :: nat) = of_char c" by simp
  then have "(0x80 + b) mod 256 = (of_char c :: nat)" by (simp only: of_char_of)
  with assms(1) show ?thesis by simp
qed

lemma char_of_eqI: "n = (of_char c :: nat) \<Longrightarrow> char_of n = c"
  by simp

lemma encode_boundary: "encode_code_point 0xFFFD = BOUNDARY"
  by (simp add: encode_code_point_def BOUNDARY_def char_of_eqI)

lemma scan_code_point:
  assumes "cp \<le> 0x10FFFF" and "cp \<noteq> 0xFFFD"
  shows "split_scan BOUNDARY None acc (encode_code_point cp @ rest) =
     split_scan BOUNDARY None (rev (encode_code_point cp) @ acc) rest"
proof -
  consider "cp < 0x80" | "0x80 \<le> cp" "cp < 0x800" | "0x800 \<le> cp" "cp < 0x10000"
    | "0x10000 \<le> cp"
    by linarith
  then show ?thesis
  proof cases
    case 1
    then have "char_of cp \<noteq> CHR 0xEF" by (intro char_of_neq) simp_all
    with 1 show ?thesis by (simp add: encode_code_point_def scan_other del: split_scan.simps)
  next
    case 2
    then have "cp div 64 < 32" by simp
    then have "char_of (0xC0 + cp div 64) \<noteq> CHR 0xEF" by (intro char_of_neq) simp_all
    moreover have "char_of (0x80 + cp mod 64) \<noteq> CHR 0xEF" by (intro cont_neq_EF) simp
    ultimately show ?thesis
      using 2 by (simp add: encode_code_point_def scan_other del: split_scan.simps)
  next
    case 3
    note f = three_byte_fields [OF 3]
    let ?b2 = "char_of (0x80 + cp div 64 mod 64)"
    let ?b3 = "char_of (0x80 + cp mod 64)"
    have c2: "?b2 \<noteq> CHR 0xEF" by (intro cont_neq_EF) simp
    have c3: "?b3 \<noteq> CHR 0xEF" by (intro cont_neq_EF) simp
    have enc: "encode_code_point cp = [char_of (0xE0 + cp div 4096), ?b2, ?b3]"
      using 3 by (simp add: encode_code_point_def)
    show ?thesis
    proof (cases "cp div 4096 = 15")
      case True
      have lead: "char_of (0xE0 + cp div 4096) = CHR 0xEF"
        by (rule char_of_eqI) (simp add: True)
      have "\<not> (?b2 = CHR 0xBF \<and> ?b3 = CHR 0xBD)"
      proof
        assume both: "?b2 = CHR 0xBF \<and> ?b3 = CHR 0xBD"
        have "0x80 + cp div 64 mod 64 = (of_char (CHR 0xBF) :: nat)"
          using both by (intro cont_eq) simp_all
        moreover have "0x80 + cp mod 64 = (of_char (CHR 0xBD) :: nat)"
          using both by (intro cont_eq) simp_all
        ultimately have "cp div 64 mod 64 = 63" and "cp mod 64 = 61" by simp_all
        with f(5) True have "cp = 0xFFFD" by simp
        with assms(2) show False by simp
      qed
      then show ?thesis
        unfolding enc lead using c2 c3
        by (simp add: scan_lead_EF scan_other del: split_scan.simps)
    next
      case False
      with f(1) have "char_of (0xE0 + cp div 4096) \<noteq> CHR 0xEF"
        by (intro char_of_neq) simp_all
      then show ?thesis
        unfolding enc using c2 c3 by (simp add: scan_other del: split_scan.simps)
    qed
  next
    case 4
    note f = four_byte_fields [OF 4 assms(1)]
    have "char_of (0xF0 + cp div 262144) \<noteq> CHR 0xEF"
      using f(1) by (intro char_of_neq) simp_all
    moreover have "char_of (0x80 + cp div 4096 mod 64) \<noteq> CHR 0xEF"
      by (intro cont_neq_EF) simp
    moreover have "char_of (0x80 + cp div 64 mod 64) \<noteq> CHR 0xEF"
      by (intro cont_neq_EF) simp
    moreover have "char_of (0x80 + cp mod 64) \<noteq> CHR 0xEF"
      by (intro cont_neq_EF) simp
    ultimately show ?thesis
      using 4 by (simp add: encode_code_point_def scan_other del: split_scan.simps)
  qed
qed

lemma split_encoded:
  "list_all (\<lambda>cp. cp \<le> 0x10FFFF) u \<Longrightarrow>
   split_scan BOUNDARY None (rev (encode_utf8 (rev uacc))) (encode_utf8 u) =
     map encode_utf8 (split_at 0xFFFD uacc u)"
proof (induction u arbitrary: uacc)
  case Nil
  show ?case by (simp add: encode_utf8_def)
next
  case (Cons cp u)
  then have valid: "cp \<le> 0x10FFFF" and rest: "list_all (\<lambda>cp. cp \<le> 0x10FFFF) u"
    by simp_all
  have enc: "encode_utf8 (cp # u) = encode_code_point cp @ encode_utf8 u"
    by (simp add: encode_utf8_def)
  show ?case
  proof (cases "cp = 0xFFFD")
    case True
    have e: "encode_utf8 (cp # u) = BOUNDARY @ encode_utf8 u"
      by (simp add: True encode_utf8_def encode_boundary)
    have s: "split_at 0xFFFD uacc (cp # u) = rev uacc # split_at 0xFFFD [] u"
      using True by simp
    have "split_scan BOUNDARY None [] (encode_utf8 u) = map encode_utf8 (split_at 0xFFFD [] u)"
      using Cons.IH [OF rest, of "[]"] by (simp add: encode_utf8_def)
    then show ?thesis
      unfolding e s scan_boundary by simp
  next
    case False
    have "rev (encode_code_point cp) @ rev (encode_utf8 (rev uacc)) =
        rev (encode_utf8 (rev (cp # uacc)))"
      by (simp add: encode_utf8_def)
    then show ?thesis
      unfolding enc scan_code_point [OF valid False]
      using Cons.IH [OF rest, of "cp # uacc"] False by simp
  qed
qed

lemma split_at_valid:
  "list_all P u \<Longrightarrow> list_all P uacc \<Longrightarrow> list_all (list_all P) (split_at sep uacc u)"
  by (induction u arbitrary: uacc) simp_all

lemma decode_all_encoded:
  "list_all (list_all (\<lambda>cp. cp \<le> 0x10FFFF)) parts \<Longrightarrow>
   decode_all (map encode_utf8 parts) = Inr parts"
  by (induction parts) (simp_all add: decode_utf8_def decode_encode_utf8)

lemma decode_split_encoded:
  assumes "list_all (\<lambda>cp. cp \<le> 0x10FFFF) u"
  shows "decode_all (str_split (encode_utf8 u) BOUNDARY) = Inr (split_at 0xFFFD [] u)"
proof -
  have "str_split (encode_utf8 u) BOUNDARY = map encode_utf8 (split_at 0xFFFD [] u)"
    using split_encoded [OF assms, of "[]"] by (simp add: str_split_def encode_utf8_def)
  moreover have "list_all (list_all (\<lambda>cp. cp \<le> 0x10FFFF)) (split_at 0xFFFD [] u)"
    using assms by (intro split_at_valid) simp_all
  ultimately show ?thesis by (simp add: decode_all_encoded)
qed

subsection \<open>The deframer\<close>

lemma framed_example_split:
  "str_split (BOUNDARY @ ''5'' @ BOUNDARY @ ''hello'' @ BOUNDARY @ ''3'' @ BOUNDARY @ ''bye''
      @ BOUNDARY) BOUNDARY = ['''', ''5'', ''hello'', ''3'', ''bye'', '''']"
  by (simp add: str_split_def BOUNDARY_def)

lemma framed_example_decode:
  "decode_all ['''', ''5'', ''hello'', ''3'', ''bye'', ''''] =
     Inr [[], unicode_of ''5'', unicode_of ''hello'', unicode_of ''3'', unicode_of ''bye'', []]"
  by (simp add: decode_utf8_def unicode_of_def)

lemma framed_example:
  "yield_text_from_framed_data
     (BOUNDARY @ ''5'' @ BOUNDARY @ ''hello'' @ BOUNDARY @ ''3'' @ BOUNDARY @ ''bye'' @ BOUNDARY)
   = Inr [unicode_of ''hello'', unicode_of ''bye'']"
  unfolding yield_text_from_framed_data_def framed_example_split framed_example_decode
  by (simp add: unicode_of_def str_int_def str_nat.simps digit_char_def)

text \<open>
  Claim C6. The deframer splits the body on the boundary bytes and decodes the parts;
  \<open>pairs_from_index_1\<close> pairs the parts at the indices 1 and 2, 3 and 4, and so on, a last
  part without a partner being left out. Whenever the parts decode, the deframer raises
  nothing and yields, in order, exactly the texts of those pairs whose declared length
  is the decimal numeral of the text's length in characters; the other pairs are dropped.
  The parts always decode for a body that is the UTF-8 encoding of a text, which is what
  both polling transports pass; the parts are then the pieces of the text between its
  U+FFFD characters. The body of the specification's example deframes to \<^verbatim>\<open>hello\<close> and \<^verbatim>\<open>bye\<close>.
\<close>

theorem deframe_yields_matching_texts:
  "(decode_all (str_split framed_data BOUNDARY) = Inr parts \<longrightarrow>
      yield_text_from_framed_data framed_data =
        Inr (map snd (filter (\<lambda>p. fst p = unicode_of (str_int (int (length (snd p)))))
                        (pairs_from_index_1 parts))))
   \<and> (list_all (\<lambda>cp. cp \<le> 0x10FFFF) u \<longrightarrow>
      yield_text_from_framed_data (encode_utf8 u) =
        Inr (map snd (filter (\<lambda>p. fst p = unicode_of (str_int (int (length (snd p)))))
                        (pairs_from_index_1 (split_at 0xFFFD [] u)))))
   \<and> yield_text_from_framed_data
        (BOUNDARY @ ''5'' @ BOUNDARY @ ''hello'' @ BOUNDARY @ ''3'' @ BOUNDARY @ ''bye'' @ BOUNDARY)
      = Inr [unicode_of ''hello'', unicode_of ''bye'']"
proof (intro conjI impI)
  assume "decode_all (str_split framed_data BOUNDARY) = Inr parts"
  then show "yield_text_from_framed_data framed_data =
        Inr (map snd (filter (\<lambda>p. fst p = unicode_of (str_int (int (length (snd p)))))
                        (pairs_from_index_1 parts)))"
    unfolding pairs_from_index_1_def by (rule deframe_decoded)
next
  assume "list_all (\<lambda>cp. cp \<le> 0x10FFFF) u"
  then have "decode_all (str_split (encode_utf8 u) BOUNDARY) = Inr (split_at 0xFFFD [] u)"
    by (rule decode_split_encoded)
  then show "yield_text_from_framed_data (encode_utf8 u) =
        Inr (map snd (filter (\<lambda>p. fst p = unicode_of (str_int (int (length (snd p)))))
                        (pairs_from_index_1 (split_at 0xFFFD [] u))))"
    unfolding pairs_from_index_1_def by (rule deframe_decoded)
next
  show "yield_text_from_framed_data
        (BOUNDARY @ ''5'' @ BOUNDARY @ ''hello'' @ BOUNDARY @ ''3'' @ BOUNDARY @ ''bye'' @ BOUNDARY)
      = Inr [unicode_of ''hello'', unicode_of ''bye'']"
    by (rule framed_example)
qed

lemma mismatch_example_split:
  "str_split (BOUNDARY @ ''05'' @ BOUNDARY @ ''hello'' @ BOUNDARY @ ''2'' @ BOUNDARY
      @ [CHR 0xC3, CHR 0xA9, CHR 0xE2, CHR 0x82, CHR 0xAC]) BOUNDARY =
     ['''', ''05'', ''hello'', ''2'', [CHR 0xC3, CHR 0xA9, CHR 0xE2, CHR 0x82, CHR 0xAC]]"
  by (simp add: str_split_def BOUNDARY_def)

lemma mismatch_example_decode:
  "decode_all ['''', ''05'', ''hello'', ''2'', [CHR 0xC3, CHR 0xA9, CHR 0xE2, CHR 0x82, CHR 0xAC]] =
     Inr [[], unicode_of ''05'', unicode_of ''hello'', unicode_of ''2'', [0xE9, 0x20AC]]"
  by (simp add: decode_utf8_def unicode_of_def is_cont_def cont_bits_def)

theorem deframe_yields_matching_texts_witness:
  "decode_all (str_split (BOUNDARY @ ''05'' @ BOUNDARY @ ''hello'' @ BOUNDARY @ ''2'' @ BOUNDARY
      @ [CHR 0xC3, CHR 0xA9, CHR 0xE2, CHR 0x82, CHR 0xAC]) BOUNDARY) =
     Inr [[], unicode_of ''05'', unicode_of ''hello'', unicode_of ''2'', [0xE9, 0x20AC]]
   \<and> yield_text_from_framed_data (BOUNDARY @ ''05'' @ BOUNDARY @ ''hello'' @ BOUNDARY @ ''2''
      @ BOUNDARY @ [CHR 0xC3, CHR 0xA9, CHR 0xE2, CHR 0x82, CHR 0xAC]) = Inr [[0xE9, 0x20AC]]
   \<and> list_all (\<lambda>cp :: nat. cp \<le> 0x10FFFF)
        [0xFFFD, 0x31, 0xFFFD, 0xE9, 0xFFFD, 0x39, 0xFFFD, 0x41]
   \<and> yield_text_from_framed_data
        (encode_utf8 [0xFFFD, 0x31, 0xFFFD, 0xE9, 0xFFFD, 0x39, 0xFFFD, 0x41]) = Inr [[0xE9]]"
proof -
  let ?body = "BOUNDARY @ ''05'' @ BOUNDARY @ ''hello'' @ BOUNDARY @ ''2'' @ BOUNDARY
      @ [CHR 0xC3, CHR 0xA9, CHR 0xE2, CHR 0x82, CHR 0xAC]"
  let ?parts = "[[], unicode_of ''05'', unicode_of ''hello'', unicode_of ''2'', [0xE9, 0x20AC]]"
  let ?u = "[0xFFFD, 0x31, 0xFFFD, 0xE9, 0xFFFD, 0x39, 0xFFFD, 0x41] :: unicode"
  have d: "decode_all (str_split ?body BOUNDARY) = Inr ?parts"
    unfolding mismatch_example_split mismatch_example_decode ..
  have v: "list_all (\<lambda>cp. cp \<le> 0x10FFFF) ?u" by simp
  have n: "[0..<2] = [0, Suc 0]" by (simp add: upt_rec)
  have "yield_text_from_framed_data ?body = Inr [[0xE9, 0x20AC]]"
    using deframe_yields_matching_texts [of ?body ?parts ?u] d
    by (simp add: pairs_from_index_1_def n unicode_of_def str_int_def str_nat.simps digit_char_def)
  moreover have "yield_text_from_framed_data (encode_utf8 ?u) = Inr [[0xE9]]"
    using deframe_yields_matching_texts [of ?body ?parts ?u] v
    by (simp add: pairs_from_index_1_def n unicode_of_def str_int_def str_nat.simps digit_char_def)
  ultimately show ?thesis using d v by simp
qed

end
